theory Spec2Isabelle
  imports Main "HOL-Library.Sublist"
begin

section \<open>Strings of the Go runtime\<close>

text \<open>
  A Go \<^verbatim>\<open>string\<close> is a sequence of bytes: \<^verbatim>\<open>len(s)\<close> counts bytes and \<^verbatim>\<open>s[i]\<close> reads
  the byte at index \<open>i\<close>. It is modelled as \<^typ>\<open>string\<close>, a list of 8-bit characters.
  Text beyond ASCII is UTF-8, several bytes per code point.

  The functions of package \<^verbatim>\<open>strings\<close> that the program calls are written out below
  after their Go implementation. Each of them handles ASCII bytes itself and hands over to
  the Unicode tables of the runtime as soon as it meets a byte \<open>\<ge> 0x80\<close>
  (\<^verbatim>\<open>utf8.RuneSelf\<close>). Those tables are not part of the program; the four table-driven
  routines are taken as a parameter, so every theorem holds whatever they compute.
\<close>

record unicode =
  MapToLower :: "string \<Rightarrow> string"
    \<comment> \<open>\<^verbatim>\<open>strings.Map(unicode.ToLower, s)\<close>, for a string with a non-ASCII byte\<close>
  EqualFoldRunes :: "string \<Rightarrow> string \<Rightarrow> bool"
    \<comment> \<open>the rune-by-rune tail of \<^verbatim>\<open>strings.EqualFold\<close>, entered at the first non-ASCII byte\<close>
  TrimFuncIsSpace :: "string \<Rightarrow> string"
    \<comment> \<open>\<^verbatim>\<open>strings.TrimFunc(s, unicode.IsSpace)\<close>\<close>
  TrimRightFuncIsSpace :: "string \<Rightarrow> string"
    \<comment> \<open>\<^verbatim>\<open>strings.TrimRightFunc(s, unicode.IsSpace)\<close>\<close>

text \<open>An instance to run the model on ASCII text, where none of the four fields is consulted.\<close>

definition plainBytes :: unicode where
  "plainBytes = \<lparr>MapToLower = (\<lambda>s. s), EqualFoldRunes = (\<lambda>s t. s = t),
                  TrimFuncIsSpace = (\<lambda>s. s), TrimRightFuncIsSpace = (\<lambda>s. s)\<rparr>"

definition isASCII :: "char \<Rightarrow> bool" where
  "isASCII c = ((of_char c :: nat) < 0x80)"

definition isUpperASCII :: "char \<Rightarrow> bool" where
  \<comment> \<open>\<^verbatim>\<open>'A' <= c && c <= 'Z'\<close>\<close>
  "isUpperASCII c = ((0x41::nat) \<le> of_char c \<and> (of_char c :: nat) \<le> 0x5A)"

definition lowerByte :: "char \<Rightarrow> char" where
  \<comment> \<open>\<^verbatim>\<open>if 'A' <= c && c <= 'Z' { c += 'a' - 'A' }\<close>\<close>
  "lowerByte c = (if isUpperASCII c then char_of (of_char c + (0x20::nat)) else c)"

definition asciiSpace :: "char \<Rightarrow> bool" where
  \<comment> \<open>\<^verbatim>\<open>asciiSpace = [256]uint8{'\t': 1, '\n': 1, '\v': 1, '\f': 1, '\r': 1, ' ': 1}\<close>\<close>
  "asciiSpace c = (c \<in> set [CHR 0x09, CHR 0x0A, CHR 0x0B, CHR 0x0C, CHR 0x0D, CHR 0x20])"

definition ToLower :: "unicode \<Rightarrow> string \<Rightarrow> string" where
  \<comment> \<open>\<^verbatim>\<open>strings.ToLower\<close>: an all-ASCII string is lowered byte by byte (and returned as it is
      when it has no upper-case letter), any other string goes through the Unicode tables.\<close>
  "ToLower U s =
     (if list_all isASCII s
      then (if list_ex isUpperASCII s then map lowerByte s else s)
      else MapToLower U s)"

fun EqualFold :: "unicode \<Rightarrow> string \<Rightarrow> string \<Rightarrow> bool" where
  \<comment> \<open>\<^verbatim>\<open>strings.EqualFold\<close>: bytes are compared pairwise while both are ASCII, equal or an
      upper-case letter and its lower-case form; the loop ends with \<^verbatim>\<open>len(s) == len(t)\<close>.\<close>
  "EqualFold U [] t = (t = [])"
| "EqualFold U (sr # s) [] = False"
| "EqualFold U (sr # s) (tr # t) =
     (if \<not> isASCII sr \<or> \<not> isASCII tr then EqualFoldRunes U (sr # s) (tr # t)
      else if tr = sr then EqualFold U s t
      else if (of_char tr :: nat) < of_char sr
      then (if isUpperASCII tr \<and> sr = char_of (of_char tr + (0x20::nat)) then EqualFold U s t
            else False)
      else (if isUpperASCII sr \<and> tr = char_of (of_char sr + (0x20::nat)) then EqualFold U s t
            else False))"

fun Index :: "string \<Rightarrow> string \<Rightarrow> nat option" where
  \<comment> \<open>\<^verbatim>\<open>strings.Index\<close>: the byte offset of the first occurrence of \<open>substr\<close>, \<open>None\<close> for -1.\<close>
  "Index [] substr = (if substr = [] then Some 0 else None)"
| "Index (c # s) substr =
     (if prefix substr (c # s) then Some 0 else map_option Suc (Index s substr))"

definition Contains :: "string \<Rightarrow> string \<Rightarrow> bool" where
  \<comment> \<open>\<^verbatim>\<open>strings.Contains(s, substr) = Index(s, substr) >= 0\<close>\<close>
  "Contains s substr = (Index s substr \<noteq> None)"

definition TrimPrefix :: "string \<Rightarrow> string \<Rightarrow> string" where
  \<comment> \<open>\<^verbatim>\<open>if HasPrefix(s, prefix) { return s[len(prefix):] }; return s\<close>\<close>
  "TrimPrefix s pre = (if prefix pre s then drop (length pre) s else s)"

definition TrimSpace :: "unicode \<Rightarrow> string \<Rightarrow> string" where
  \<comment> \<open>\<^verbatim>\<open>strings.TrimSpace\<close>: ASCII white space is dropped from the left, then from the right;
      the first non-ASCII byte met on either side hands the rest over to the Unicode-aware
      trimming (\<^verbatim>\<open>TrimFunc\<close> on the left, \<^verbatim>\<open>TrimRightFunc\<close> on the right).\<close>
  "TrimSpace U s =
     (case dropWhile asciiSpace s of
        [] \<Rightarrow> []
      | c # rest \<Rightarrow>
          if \<not> isASCII c then TrimFuncIsSpace U (c # rest)
          else (case dropWhile asciiSpace (rev (c # rest)) of
                  [] \<Rightarrow> []
                | d # front \<Rightarrow>
                    if \<not> isASCII d then TrimRightFuncIsSpace U (rev (d # front))
                    else rev (d # front)))"

lemma Index_bound: "Index s substr = Some i \<Longrightarrow> i + length substr \<le> length s"
  by (induction s arbitrary: i) (auto split: if_splits dest: prefix_length_le)

function (sequential) Split :: "string \<Rightarrow> string \<Rightarrow> string list" where
  \<comment> \<open>\<^verbatim>\<open>strings.Split\<close> with a non-empty separator (\<^verbatim>\<open>genSplit\<close>): cut at each occurrence
      found by \<^verbatim>\<open>Index\<close>, continue behind it, the rest is the last field.\<close>
  "Split s (c # sep) =
     (case Index s (c # sep) of
        None \<Rightarrow> [s]
      | Some m \<Rightarrow> take m s # Split (drop (m + length (c # sep)) s) (c # sep))"
  by pat_completeness auto
termination
  by (relation "measure (\<lambda>(s, sep). length s)") (auto dest: Index_bound)

function (sequential) ReplaceAll :: "string \<Rightarrow> string \<Rightarrow> string \<Rightarrow> string" where
  \<comment> \<open>\<^verbatim>\<open>strings.ReplaceAll\<close> with a non-empty \<open>old\<close>: each occurrence found by \<^verbatim>\<open>Index\<close>,
      left to right and not overlapping, is replaced.\<close>
  "ReplaceAll s (c # old) new =
     (case Index s (c # old) of
        None \<Rightarrow> s
      | Some j \<Rightarrow> take j s @ new @ ReplaceAll (drop (j + length (c # old)) s) (c # old) new)"
  by pat_completeness auto
termination
  by (relation "measure (\<lambda>(s, old, new). length s)") (auto dest: Index_bound)

fun itoa :: "nat \<Rightarrow> string" where
  \<comment> \<open>the verb \<^verbatim>\<open>%d\<close> of \<^verbatim>\<open>fmt.Sprintf\<close> on a non-negative \<^verbatim>\<open>int\<close>: decimal digits\<close>
  "itoa n = (if n < 10 then [char_of (0x30 + n)]
             else itoa (n div 10) @ [char_of (0x30 + n mod 10)])"


section \<open>Documents (google\_drive.go)\<close>

record GoogleDocument =
  ID :: string
  Name :: string
  Description :: string
  ModifiedAt :: string
  CreatedAt :: string

record ExportFormat =
  MimeType :: string
  Extension :: string


section \<open>Reconciliation of candidate names (together\_filter.go, FindMatchingDocuments)\<close>

text \<open>
  The inner loop over \<^verbatim>\<open>matchingNames\<close> appends the document at the first name that matches
  and leaves the loop (\<^verbatim>\<open>break\<close>); the outer loop visits the documents in list order.
  \<open>matches\<close> is the slice being built.
\<close>

fun scanNames ::
  "unicode \<Rightarrow> GoogleDocument \<Rightarrow> string list \<Rightarrow> GoogleDocument list \<Rightarrow> GoogleDocument list"
where
  "scanNames U document [] matches = matches"
| "scanNames U document (name # names) matches =
     (if EqualFold U (Name document) name
         \<or> Contains (ToLower U (Name document)) (ToLower U name)
      then matches @ [document]
      else scanNames U document names matches)"

fun scanDocuments ::
  "unicode \<Rightarrow> GoogleDocument list \<Rightarrow> string list \<Rightarrow> GoogleDocument list \<Rightarrow> GoogleDocument list"
where
  "scanDocuments U [] matchingNames matches = matches"
| "scanDocuments U (document # documents) matchingNames matches =
     scanDocuments U documents matchingNames (scanNames U document matchingNames matches)"

definition FindMatchingDocuments ::
  "unicode \<Rightarrow> GoogleDocument list \<Rightarrow> string list \<Rightarrow> GoogleDocument list"
where
  "FindMatchingDocuments U documents matchingNames = scanDocuments U documents matchingNames []"

text \<open>Three documents used to run the model.\<close>

definition quarterly :: GoogleDocument where
  "quarterly = \<lparr>ID = ''d1'', Name = ''Quarterly Report Draft'', Description = '''',
                 ModifiedAt = ''2024-01-02'', CreatedAt = ''2024-01-01''\<rparr>"

definition beta :: GoogleDocument where
  "beta = \<lparr>ID = ''d2'', Name = ''Beta'', Description = ''second draft'',
            ModifiedAt = ''2024-02-02'', CreatedAt = ''2024-02-01''\<rparr>"

definition gamma :: GoogleDocument where
  "gamma = \<lparr>ID = ''d3'', Name = ''Gamma'', Description = '''',
             ModifiedAt = ''2024-03-02'', CreatedAt = ''2024-03-01''\<rparr>"


section \<open>File names of exported documents (google\_drive.go, main.go)\<close>

definition invalidChars :: "string list" where
  \<comment> \<open>\<^verbatim>\<open>[]string{"\\", "/", ":", "*", "?", "\"", "<", ">", "|"}\<close>\<close>
  "invalidChars = [[CHR 0x5C], ''/'', '':'', ''*'', ''?'', [CHR 0x22], ''<'', ''>'', ''|'']"

definition SanitizeFilename :: "string \<Rightarrow> string" where
  \<comment> \<open>the loop over \<open>invalidChars\<close>, each round replacing in the result of the round before\<close>
  "SanitizeFilename name = foldl (\<lambda>result char. ReplaceAll result char ''_'') name invalidChars"

definition exportFilename :: "GoogleDocument \<Rightarrow> ExportFormat \<Rightarrow> string" where
  \<comment> \<open>\<^verbatim>\<open>filename := SanitizeFilename(document.Name) + format.Extension\<close> of \<^verbatim>\<open>exportDocument\<close>\<close>
  "exportFilename document format = SanitizeFilename (Name document) @ Extension format"

definition exportOutputPath :: "GoogleDocument \<Rightarrow> string \<Rightarrow> ExportFormat \<Rightarrow> string" where
  \<comment> \<open>the path \<^verbatim>\<open>exportDocument\<close> hands to the Drive client\<close>
  "exportOutputPath document outputDirectory format =
     (if outputDirectory \<noteq> ''.'' \<and> outputDirectory \<noteq> ''''
      then outputDirectory @ ''/'' @ exportFilename document format
      else exportFilename document format)"

definition pdfFormat :: ExportFormat where
  \<comment> \<open>the entry \<^verbatim>\<open>"pdf"\<close> of the table \<^verbatim>\<open>ExportFormats\<close>\<close>
  "pdfFormat = \<lparr>MimeType = ''application/pdf'', Extension = ''.pdf''\<rparr>"


section \<open>The query matcher (together\_filter.go, FilterDocuments)\<close>

definition TogetherModel :: string where
  "TogetherModel = ''ServiceNow-AI/Apriel-1.6-15b-Thinker''"

record TogetherMessage =
  Role :: string
  Content :: string

record TogetherRequest =
  Model :: string
  Messages :: "TogetherMessage list"

text \<open>
  The decoded answer of the endpoint: \<open>Choices\<close> holds \<^verbatim>\<open>Message.Content\<close> of each
  completion, \<open>Error\<close> holds \<^verbatim>\<open>Error.Message\<close> when the pointer \<^verbatim>\<open>response.Error\<close> is not nil.
\<close>

record TogetherResponse =
  Choices :: "string list"
  Error :: "string option"

record DocumentFilter =
  apiKey :: string

text \<open>The errors \<^verbatim>\<open>FilterDocuments\<close> returns, one constructor for each \<^verbatim>\<open>fmt.Errorf\<close>.\<close>

datatype error =
    FailedToMarshalRequest string
  | FailedToCreateRequest string
  | FailedToSendRequest string
  | FailedToReadResponse string
  | FailedToParseResponse string
  | APIError string
  | NoResponseFromAIModel

text \<open>
  Serialising the request, the HTTP exchange and decoding the body are library and network:
  what they yield for a key and a request is the environment of the function, with one
  outcome for each place where the code checks \<^verbatim>\<open>err != nil\<close> and one for a decoded body.
\<close>

datatype exchange =
    MarshalError string
  | NewRequestError string
  | DoError string
  | ReadAllError string
  | UnmarshalError string
  | Unmarshalled TogetherResponse

type_synonym endpoint = "string \<Rightarrow> TogetherRequest \<Rightarrow> exchange"

definition fixedResponse :: "TogetherResponse \<Rightarrow> endpoint" where
  \<comment> \<open>an endpoint that answers every request with the same decoded body\<close>
  "fixedResponse response = (\<lambda>key request. Unmarshalled response)"

subsection \<open>The prompt\<close>

definition writeDocument :: "nat \<Rightarrow> GoogleDocument \<Rightarrow> string" where
  \<comment> \<open>what one round of the loop \<^verbatim>\<open>for index, document := range documents\<close> writes\<close>
  "writeDocument index document =
     (itoa (index + 1) @ ''. '' @ Name document)
     @ (if Description document \<noteq> [] then '' - '' @ Description document else [])
     @ [CHR 0x0A]"

fun writeDocuments :: "nat \<Rightarrow> GoogleDocument list \<Rightarrow> string \<Rightarrow> string" where
  \<comment> \<open>the loop; the last argument is the \<^verbatim>\<open>strings.Builder\<close>\<close>
  "writeDocuments index [] documentList = documentList"
| "writeDocuments index (document # documents) documentList =
     writeDocuments (Suc index) documents (documentList @ writeDocument index document)"

definition documentList :: "GoogleDocument list \<Rightarrow> string" where
  "documentList documents = writeDocuments 0 documents []"

definition promptHead :: string where
  "promptHead =
     ''You are a document filter assistant. Given a list of document names and a search query, ''
     @ ''return ONLY the names of documents that match the query.'' @ [CHR 0x0A, CHR 0x0A]
     @ ''Which documents from this list:'' @ [CHR 0x0A]"

definition promptMiddle :: string where
  "promptMiddle = [CHR 0x0A] @ ''Match the prompt: ''"

definition promptTail :: string where
  "promptTail =
     [CHR 0x0A, CHR 0x0A] @ ''Rules:'' @ [CHR 0x0A]
     @ ''1. Return ONLY the document names that match, one per line'' @ [CHR 0x0A]
     @ ''2. Use EXACT document names from the list'' @ [CHR 0x0A]
     @ ''3. If no documents match, return '' @ [CHR 0x22] @ ''NONE'' @ [CHR 0x22, CHR 0x0A]
     @ ''4. Do not explain or add any other text'' @ [CHR 0x0A, CHR 0x0A]
     @ ''Matching documents:''"

definition buildPrompt :: "GoogleDocument list \<Rightarrow> string \<Rightarrow> string" where
  \<comment> \<open>the \<^verbatim>\<open>fmt.Sprintf\<close> with the two \<^verbatim>\<open>%s\<close>\<close>
  "buildPrompt documents query =
     promptHead @ documentList documents @ promptMiddle @ query @ promptTail"

definition buildRequest :: "GoogleDocument list \<Rightarrow> string \<Rightarrow> TogetherRequest" where
  "buildRequest documents query =
     \<lparr>Model = TogetherModel,
      Messages = [\<lparr>Role = ''user'', Content = buildPrompt documents query\<rparr>]\<rparr>"

subsection \<open>Parsing the answer\<close>

definition stripBullets :: "string \<Rightarrow> string" where
  \<comment> \<open>\<^verbatim>\<open>cleaned = strings.TrimPrefix(cleaned, "- "); cleaned = strings.TrimPrefix(cleaned, "* ")\<close>\<close>
  "stripBullets cleaned = TrimPrefix (TrimPrefix cleaned ''- '') ''* ''"

definition stripNumbering :: "string \<Rightarrow> string" where
  \<comment> \<open>the two \<^verbatim>\<open>if\<close> statements on \<^verbatim>\<open>cleaned[1], cleaned[2]\<close> and on \<^verbatim>\<open>cleaned[2], cleaned[3]\<close>\<close>
  "stripNumbering cleaned =
     (let cleaned = (if 3 < length cleaned \<and> cleaned ! 1 = CHR ''.'' \<and> cleaned ! 2 = CHR '' ''
                     then drop 3 cleaned else cleaned);
          cleaned = (if 4 < length cleaned \<and> cleaned ! 2 = CHR ''.'' \<and> cleaned ! 3 = CHR '' ''
                     then drop 4 cleaned else cleaned)
      in cleaned)"

definition cleanLine :: "unicode \<Rightarrow> string \<Rightarrow> string" where
  \<comment> \<open>the body of the loop over the lines, up to the last \<^verbatim>\<open>TrimSpace\<close>\<close>
  "cleanLine U line = TrimSpace U (stripNumbering (stripBullets (TrimSpace U line)))"

definition keepName :: "string \<Rightarrow> bool" where
  \<comment> \<open>\<^verbatim>\<open>cleaned != "" && cleaned != "NONE"\<close>\<close>
  "keepName cleaned = (cleaned \<noteq> [] \<and> cleaned \<noteq> ''NONE'')"

fun collectNames :: "unicode \<Rightarrow> string list \<Rightarrow> string list \<Rightarrow> string list" where
  \<comment> \<open>the loop over the lines; the last argument is the slice \<^verbatim>\<open>matchingNames\<close>\<close>
  "collectNames U [] matchingNames = matchingNames"
| "collectNames U (line # lines) matchingNames =
     collectNames U lines
       (if keepName (cleanLine U line) then matchingNames @ [cleanLine U line]
        else matchingNames)"

definition FilterDocuments ::
  "unicode \<Rightarrow> endpoint \<Rightarrow> DocumentFilter \<Rightarrow> GoogleDocument list \<Rightarrow> string \<Rightarrow> error + string list"
where
  "FilterDocuments U endpoint filter' documents query =
     (case endpoint (apiKey filter') (buildRequest documents query) of
        MarshalError e \<Rightarrow> Inl (FailedToMarshalRequest e)
      | NewRequestError e \<Rightarrow> Inl (FailedToCreateRequest e)
      | DoError e \<Rightarrow> Inl (FailedToSendRequest e)
      | ReadAllError e \<Rightarrow> Inl (FailedToReadResponse e)
      | UnmarshalError e \<Rightarrow> Inl (FailedToParseResponse e)
      | Unmarshalled response \<Rightarrow>
          (case Error response of
             Some message \<Rightarrow> Inl (APIError message)
           | None \<Rightarrow>
               (case Choices response of
                  [] \<Rightarrow> Inl NoResponseFromAIModel
                | first # others \<Rightarrow>
                    (let content = TrimSpace U first
                     in if content = ''NONE'' \<or> content = '''' then Inr []
                        else Inr (collectNames U (Split content [CHR 0x0A]) [])))))"

definition theFilter :: DocumentFilter where
  "theFilter = \<lparr>apiKey = ''key''\<rparr>"


section \<open>Properties of the string functions\<close>

lemma Contains_sublist: "Contains s substr = sublist substr s"
  by (induction s) (auto simp: Contains_def sublist_Cons_right)

lemma Contains_empty: "Contains s []"
  by (cases s) (simp_all add: Contains_def)

lemma ToLower_empty: "ToLower U [] = []"
  by (simp add: ToLower_def)

text \<open>
  On ASCII text the two case-insensitive comparisons of the reconciliation are what their
  names say, whatever the Unicode tables hold: \<open>EqualFold\<close> is equality of the strings
  lowered byte by byte, and \<open>ToLower\<close> lowers byte by byte.
\<close>

lemma of_char_lowerByte:
  "(of_char (lowerByte c) :: nat) = (if isUpperASCII c then of_char c + 0x20 else of_char c)"
  by (simp add: lowerByte_def isUpperASCII_def of_char_of)

lemma eq_char_of_add:
  "isUpperASCII b \<Longrightarrow> (a = char_of (of_char b + (0x20::nat))) = ((of_char a :: nat) = of_char b + 0x20)"
proof -
  assume "isUpperASCII b"
  then have "(of_char b + (0x20::nat)) mod 256 = of_char b + 0x20"
    by (simp add: isUpperASCII_def)
  then have "(of_char (char_of (of_char b + (0x20::nat)) :: char) :: nat) = of_char b + 0x20"
    by (simp add: of_char_of)
  then show ?thesis
    by (metis of_char_eq_iff)
qed

lemma lowerByte_eq_iff:
  "(lowerByte a = lowerByte b) =
     (b = a \<or> (if (of_char b :: nat) < of_char a
                then isUpperASCII b \<and> a = char_of (of_char b + (0x20::nat))
                else isUpperASCII a \<and> b = char_of (of_char a + (0x20::nat))))"
proof -
  have l: "(lowerByte a = lowerByte b) = ((of_char (lowerByte a) :: nat) = of_char (lowerByte b))"
    by simp
  have e: "(b = a) = ((of_char b :: nat) = of_char a)"
    by simp
  show ?thesis
    unfolding l e of_char_lowerByte
    by (auto simp: eq_char_of_add) (auto simp: isUpperASCII_def)
qed

lemma EqualFold_ascii:
  "list_all isASCII s \<Longrightarrow> list_all isASCII t \<Longrightarrow>
   EqualFold U s t = (map lowerByte s = map lowerByte t)"
proof (induction s arbitrary: t)
  case Nil
  then show ?case by auto
next
  case (Cons sr s)
  show ?case
  proof (cases t)
    case Nil
    then show ?thesis by simp
  next
    case t: (Cons tr t')
    from Cons.prems t have a: "isASCII sr" "isASCII tr" "list_all isASCII s" "list_all isASCII t'"
      by simp_all
    have "EqualFold U (sr # s) (tr # t') = (lowerByte sr = lowerByte tr \<and> EqualFold U s t')"
      unfolding lowerByte_eq_iff
      by (cases "tr = sr"; cases "(of_char tr :: nat) < of_char sr") (auto simp: a)
    also have "EqualFold U s t' = (map lowerByte s = map lowerByte t')"
      by (rule Cons.IH [OF a(3,4)])
    finally show ?thesis
      by (simp add: t)
  qed
qed

lemma ToLower_ascii: "list_all isASCII s \<Longrightarrow> ToLower U s = map lowerByte s"
proof -
  have "\<not> list_ex isUpperASCII s \<Longrightarrow> map lowerByte s = s"
    by (induction s) (simp_all add: lowerByte_def)
  then show "list_all isASCII s \<Longrightarrow> ToLower U s = map lowerByte s"
    by (simp add: ToLower_def)
qed


section \<open>Properties of the reconciliation\<close>

lemma scanNames_append:
  "scanNames U d names matches =
     matches @ (if \<exists>n\<in>set names. EqualFold U (Name d) n
                     \<or> Contains (ToLower U (Name d)) (ToLower U n)
                then [d] else [])"
  by (induction names) auto

lemma scanDocuments_filter:
  "scanDocuments U documents names matches =
     matches @ filter (\<lambda>d. \<exists>n\<in>set names. EqualFold U (Name d) n
                             \<or> Contains (ToLower U (Name d)) (ToLower U n)) documents"
  by (induction documents arbitrary: matches) (simp_all add: scanNames_append)

lemma count_list_filter_le: "count_list (filter P xs) x \<le> count_list xs x"
  by (induction xs) auto

text \<open>
  C1. A document is in the result of \<open>FindMatchingDocuments\<close> exactly when some candidate
  name equals its display name under \<open>EqualFold\<close> or, lowered, occurs as a substring of its
  lowered display name; the scan of the candidates ends at the first match, so a document
  is taken once however many candidates match it: the result is the document list filtered
  by that condition.
\<close>

theorem FindMatchingDocuments_filter:
  "FindMatchingDocuments U documents names =
     filter (\<lambda>d. \<exists>n\<in>set names. EqualFold U (Name d) n
                   \<or> sublist (ToLower U n) (ToLower U (Name d))) documents"
  by (simp add: FindMatchingDocuments_def scanDocuments_filter Contains_sublist)

theorem FindMatchingDocuments_filter_witness:
  "FindMatchingDocuments plainBytes [beta, quarterly, gamma] [''Report'', ''quarterly'', ''BETA'']
     = [beta, quarterly]"
proof -
  have "filter (\<lambda>d. \<exists>n\<in>set [''Report'', ''quarterly'', ''BETA'']. EqualFold plainBytes (Name d) n
                   \<or> sublist (ToLower plainBytes n) (ToLower plainBytes (Name d)))
          [beta, quarterly, gamma] = [beta, quarterly]"
    by code_simp
  with FindMatchingDocuments_filter
    [of plainBytes "[beta, quarterly, gamma]" "[''Report'', ''quarterly'', ''BETA'']"]
  show ?thesis by (simp only:)
qed

text \<open>
  C2. The result of \<open>FindMatchingDocuments\<close> is a subsequence of the document list: its
  elements are records of the input, in the order of the input, and no record occurs more
  often than in the input (so not twice when the fetched documents are distinct), also when
  several candidates match it. The order and the multiplicity of the candidates play no
  role: two candidate lists with the same elements give the same result.
\<close>

theorem FindMatchingDocuments_subseq:
  "subseq (FindMatchingDocuments U documents names) documents
   \<and> (\<forall>d. count_list (FindMatchingDocuments U documents names) d \<le> count_list documents d)
   \<and> (distinct documents \<longrightarrow> distinct (FindMatchingDocuments U documents names))
   \<and> (set names' = set names \<longrightarrow>
        FindMatchingDocuments U documents names' = FindMatchingDocuments U documents names)"
  by (simp add: FindMatchingDocuments_def scanDocuments_filter count_list_filter_le)

theorem FindMatchingDocuments_subseq_witness:
  "FindMatchingDocuments plainBytes [quarterly, beta, gamma] [''gamma'', ''Report'', ''Draft'']
     = [quarterly, gamma]
   \<and> subseq [quarterly, gamma] [quarterly, beta, gamma]
   \<and> distinct [quarterly, gamma]
   \<and> FindMatchingDocuments plainBytes [quarterly, beta, gamma] [''Draft'', ''Report'', ''gamma'']
     = [quarterly, gamma]"
proof -
  let ?ds = "[quarterly, beta, gamma]"
  let ?ns = "[''gamma'', ''Report'', ''Draft'']"
  let ?ns' = "[''Draft'', ''Report'', ''gamma'']"
  have run: "FindMatchingDocuments plainBytes ?ds ?ns = [quarterly, gamma]"
    by code_simp
  have d: "distinct ?ds"
    by code_simp
  have s: "set ?ns' = set ?ns"
    by auto
  note t = FindMatchingDocuments_subseq [of plainBytes ?ds ?ns ?ns']
  from t have "subseq (FindMatchingDocuments plainBytes ?ds ?ns) ?ds"
    by (rule conjunct1)
  moreover from t d have "distinct (FindMatchingDocuments plainBytes ?ds ?ns)"
    by blast
  moreover from t s have "FindMatchingDocuments plainBytes ?ds ?ns'
      = FindMatchingDocuments plainBytes ?ds ?ns"
    by blast
  ultimately show ?thesis
    by (simp only: run simp_thms)
qed

text \<open>
  C9. When the empty string is among the candidate names, every document of the list is in
  the result: lowering the empty string gives the empty string, and the empty string is
  found (at offset 0) in every lowered display name.
\<close>

theorem FindMatchingDocuments_empty_candidate:
  "[] \<in> set names \<Longrightarrow> FindMatchingDocuments U documents names = documents"
proof -
  assume e: "[] \<in> set names"
  have all: "\<exists>n\<in>set names. EqualFold U (Name d) n
            \<or> Contains (ToLower U (Name d)) (ToLower U n)" for d
    using e by (auto intro!: bexI [of _ "[]"] simp: ToLower_empty Contains_empty)
  show ?thesis
    unfolding FindMatchingDocuments_def scanDocuments_filter
    by (simp add: all)
qed

theorem FindMatchingDocuments_empty_candidate_witness:
  "[] \<in> set [''zzz'', []]
   \<and> FindMatchingDocuments plainBytes [quarterly, beta, gamma] [''zzz'', []]
       = [quarterly, beta, gamma]"
proof -
  have h: "[] \<in> set [''zzz'', []]"
    by simp
  from FindMatchingDocuments_empty_candidate [OF h, of plainBytes "[quarterly, beta, gamma]"] h
  show ?thesis by (simp only: simp_thms)
qed

section \<open>Properties of the file names\<close>

lemma ReplaceAll_Nil: "ReplaceAll [] [c] new = []"
  by simp

lemma ReplaceAll_Cons:
  "ReplaceAll (x # s) [c] new =
     (if x = c then new @ ReplaceAll s [c] new else x # ReplaceAll s [c] new)"
  by (cases "Index s [c]") simp_all

lemma ReplaceAll_byte: "ReplaceAll s [c] [r] = map (\<lambda>x. if x = c then r else x) s"
  by (induction s) (simp_all add: ReplaceAll_Nil ReplaceAll_Cons del: ReplaceAll.simps)

lemma foldl_ReplaceAll_bytes:
  "r \<notin> set cs \<Longrightarrow>
   foldl (\<lambda>result char. ReplaceAll result char [r]) name (map (\<lambda>c. [c]) cs)
     = map (\<lambda>x. if x \<in> set cs then r else x) name"
proof (induction cs arbitrary: name)
  case Nil
  then show ?case by simp
next
  case (Cons c cs)
  then have r: "r \<notin> set cs" by simp
  have "(\<lambda>x. if (if x = c then r else x) \<in> set cs then r else (if x = c then r else x))
          = (\<lambda>x. if x \<in> set (c # cs) then r else x)"
    using r by auto
  then show ?case
    by (simp add: Cons.IH [OF r] ReplaceAll_byte comp_def del: ReplaceAll.simps)
qed

lemma invalidChars_bytes:
  "invalidChars = map (\<lambda>c. [c]) [CHR 0x5C, CHR ''/'', CHR '':'', CHR ''*'', CHR ''?'', CHR 0x22,
                                         CHR ''<'', CHR ''>'', CHR ''|'']"
  by (simp add: invalidChars_def)

lemma SanitizeFilename_map:
  "SanitizeFilename name =
     map (\<lambda>c. if c \<in> {CHR 0x5C, CHR ''/'', CHR '':'', CHR ''*'', CHR ''?'', CHR 0x22,
                         CHR ''<'', CHR ''>'', CHR ''|''} then CHR ''_'' else c) name"
proof -
  let ?cs = "[CHR 0x5C, CHR ''/'', CHR '':'', CHR ''*'', CHR ''?'', CHR 0x22,
              CHR ''<'', CHR ''>'', CHR ''|'']"
  have "CHR ''_'' \<notin> set ?cs"
    by simp
  from foldl_ReplaceAll_bytes [OF this, of name]
  have "SanitizeFilename name = map (\<lambda>x. if x \<in> set ?cs then CHR ''_'' else x) name"
    by (simp only: SanitizeFilename_def invalidChars_bytes)
  moreover have "set ?cs = {CHR 0x5C, CHR ''/'', CHR '':'', CHR ''*'', CHR ''?'', CHR 0x22,
                           CHR ''<'', CHR ''>'', CHR ''|''}"
    by (simp only: list.set)
  ultimately show ?thesis
    by (simp only:)
qed

text \<open>
  C8. \<open>SanitizeFilename\<close> replaces every occurrence of each of the nine bytes
  \<^verbatim>\<open>\ / : * ? " < > |\<close> by an underscore and leaves every other byte as it is, position by
  position; the file name of an export is the sanitized display name followed by the
  suffix of the format.
\<close>

theorem SanitizeFilename_replaces:
  "SanitizeFilename name =
     map (\<lambda>c. if c \<in> {CHR 0x5C, CHR ''/'', CHR '':'', CHR ''*'', CHR ''?'', CHR 0x22,
                         CHR ''<'', CHR ''>'', CHR ''|''} then CHR ''_'' else c) name
   \<and> exportFilename document format = SanitizeFilename (Name document) @ Extension format"
  by (simp add: SanitizeFilename_map exportFilename_def)

theorem SanitizeFilename_replaces_witness:
  "SanitizeFilename ''Report: Q1/Q2?'' = ''Report_ Q1_Q2_''
   \<and> exportFilename (quarterly\<lparr>Name := ''Report: Q1/Q2?''\<rparr>) pdfFormat = ''Report_ Q1_Q2_.pdf''"
proof -
  let ?d = "quarterly\<lparr>Name := ''Report: Q1/Q2?''\<rparr>"
  note t = SanitizeFilename_replaces [of "''Report: Q1/Q2?''" ?d pdfFormat]
  have m: "map (\<lambda>c. if c \<in> {CHR 0x5C, CHR ''/'', CHR '':'', CHR ''*'', CHR ''?'', CHR 0x22,
                         CHR ''<'', CHR ''>'', CHR ''|''} then CHR ''_'' else c) ''Report: Q1/Q2?''
           = ''Report_ Q1_Q2_''"
    by simp
  have n: "Name ?d = ''Report: Q1/Q2?''" and x: "Extension pdfFormat = ''.pdf''"
    by (simp_all add: pdfFormat_def)
  from t m have s: "SanitizeFilename ''Report: Q1/Q2?'' = ''Report_ Q1_Q2_''"
    by (simp only:)
  moreover from t have "exportFilename ?d pdfFormat = SanitizeFilename (Name ?d) @ Extension pdfFormat"
    by (rule conjunct2)
  then have "exportFilename ?d pdfFormat = ''Report_ Q1_Q2_.pdf''"
    by (simp only: n x s) simp
  ultimately show ?thesis
    by (rule conjI)
qed

text \<open>
  C10. \<open>SanitizeFilename\<close> is idempotent: the underscore it writes is none of the nine
  bytes it replaces, so a second pass changes nothing.
\<close>

theorem SanitizeFilename_idempotent:
  "SanitizeFilename (SanitizeFilename s) = SanitizeFilename s"
  by (simp add: SanitizeFilename_map)

section \<open>Properties of the prompt\<close>

lemma itoa_value: "fold (\<lambda>c v. 10 * v + (of_char c - 0x30)) (itoa n) 0 = n"
proof (induction n rule: itoa.induct)
  case (1 n)
  show ?case
  proof (cases "n < 10")
    case True
    then show ?thesis
      by (subst itoa.simps) (simp add: of_char_of)
  next
    case False
    then have "n mod 10 < 10" and "fold (\<lambda>c v. 10 * v + (of_char c - 0x30)) (itoa (n div 10)) 0
        = n div 10"
      using 1 by simp_all
    with False show ?thesis
      by (subst itoa.simps) (simp add: of_char_of)
  qed
qed

lemma writeDocuments_append:
  "writeDocuments index documents b =
     b @ concat (map (\<lambda>(i, d). itoa i @ ''. '' @ Name d
                        @ (if Description d = [] then [] else '' - '' @ Description d)
                        @ [CHR 0x0A]) (enumerate (Suc index) documents))"
  by (induction documents arbitrary: index b) (simp_all add: writeDocument_def)

text \<open>
  C7. The document section of the prompt is, for the documents in list order and numbered
  from 1, the concatenation of one entry per document: the decimal index, a period and a
  space, the name, then \<open>" - "\<close> and the description exactly when the description is not
  empty, then a line feed. The prompt carries that section between its fixed heading and
  the query.
\<close>

theorem documentList_enumerated:
  "documentList documents =
     concat (map (\<lambda>(i, d). itoa i @ ''. '' @ Name d
                   @ (if Description d = [] then [] else '' - '' @ Description d)
                   @ [CHR 0x0A]) (enumerate 1 documents))
   \<and> buildPrompt documents query =
       promptHead @ documentList documents @ promptMiddle @ query @ promptTail"
  by (simp add: documentList_def writeDocuments_append buildPrompt_def)

theorem documentList_enumerated_witness:
  "documentList [quarterly, beta]
     = ''1. Quarterly Report Draft'' @ [CHR 0x0A] @ ''2. Beta - second draft'' @ [CHR 0x0A]"
proof -
  have "concat (map (\<lambda>(i, d). itoa i @ ''. '' @ Name d
                   @ (if Description d = [] then [] else '' - '' @ Description d)
                   @ [CHR 0x0A]) (enumerate 1 [quarterly, beta]))
        = ''1. Quarterly Report Draft'' @ [CHR 0x0A] @ ''2. Beta - second draft'' @ [CHR 0x0A]"
    by code_simp
  with documentList_enumerated [of "[quarterly, beta]" "''reports''"]
  show ?thesis by (simp only:)
qed


section \<open>Properties of the line parser\<close>

lemma numbered3:
  "(3 < length c \<and> c ! 1 = x \<and> c ! 2 = y) = (\<exists>a r. c = a # x # y # r \<and> r \<noteq> [])"
  by (cases c; cases "tl c"; cases "tl (tl c)"; cases "tl (tl (tl c))") auto

lemma numbered4:
  "(4 < length c \<and> c ! 2 = x \<and> c ! 3 = y) = (\<exists>a b r. c = a # b # x # y # r \<and> r \<noteq> [])"
  by (cases c; cases "tl c"; cases "tl (tl c)"; cases "tl (tl (tl c))";
      cases "tl (tl (tl (tl c)))") auto

text \<open>
  C3. On a line that has been trimmed and stripped of bullets, the parser drops the first
  three bytes when the line is longer than three bytes and has a period at index 1 and a
  space at index 2 (that is, the line is one byte, a period, a space and a non-empty rest);
  then, on the result of that step and whether or not it dropped anything, it drops the
  first four bytes when that result is longer than four bytes and has a period at index 2
  and a space at index 3. So a line of the shape \<open>x. yz. rest\<close> with a non-empty rest, such
  as \<open>1. Dr. Smith\<close>, is stripped twice and only the rest, \<open>Smith\<close>, is left.
\<close>

theorem stripNumbering_in_sequence:
  "stripNumbering c =
     (let c1 = (if \<exists>a r. c = a # CHR ''.'' # CHR '' '' # r \<and> r \<noteq> [] then drop 3 c else c)
      in if \<exists>a b r. c1 = a # b # CHR ''.'' # CHR '' '' # r \<and> r \<noteq> [] then drop 4 c1 else c1)
   \<and> (rest \<noteq> [] \<longrightarrow> stripNumbering (x # ''. '' @ y # z # ''. '' @ rest) = rest)
   \<and> cleanLine U line = TrimSpace U (stripNumbering (stripBullets (TrimSpace U line)))"
proof (intro conjI impI)
  show "stripNumbering c =
     (let c1 = (if \<exists>a r. c = a # CHR ''.'' # CHR '' '' # r \<and> r \<noteq> [] then drop 3 c else c)
      in if \<exists>a b r. c1 = a # b # CHR ''.'' # CHR '' '' # r \<and> r \<noteq> [] then drop 4 c1 else c1)"
    unfolding stripNumbering_def numbered3 numbered4 by (simp only: Let_def)
next
  assume "rest \<noteq> []"
  then show "stripNumbering (x # ''. '' @ y # z # ''. '' @ rest) = rest"
    by (simp add: stripNumbering_def)
next
  show "cleanLine U line = TrimSpace U (stripNumbering (stripBullets (TrimSpace U line)))"
    by (simp add: cleanLine_def)
qed

theorem stripNumbering_in_sequence_witness:
  "''Smith'' \<noteq> []
   \<and> stripNumbering ''1. Dr. Smith'' = ''Smith''
   \<and> FilterDocuments plainBytes (fixedResponse \<lparr>Choices = [''1. Dr. Smith''], Error = None\<rparr>)
        theFilter [quarterly] ''smith'' = Inr [''Smith'']"
proof -
  have h: "''Smith'' \<noteq> []"
    by simp
  from stripNumbering_in_sequence [of _ "''Smith''" "CHR ''1''" "CHR ''D''" "CHR ''r''"] h
  have "stripNumbering (CHR ''1'' # ''. '' @ CHR ''D'' # CHR ''r'' # ''. '' @ ''Smith'') = ''Smith''"
    by blast
  then have s: "stripNumbering ''1. Dr. Smith'' = ''Smith''"
    by simp
  have f: "FilterDocuments plainBytes
        (fixedResponse \<lparr>Choices = [''1. Dr. Smith''], Error = None\<rparr>)
        theFilter [quarterly] ''smith'' = Inr [''Smith'']"
    by code_simp
  from h s f show ?thesis
    by (intro conjI)
qed

text \<open>
  C4 (as amended). The two bullet markers are tried one after the other, \<open>"- "\<close> first and
  \<open>"* "\<close> on the result: a line beginning with \<open>"- * "\<close> loses both markers, any other
  line beginning with \<open>"- "\<close> or with \<open>"* "\<close> loses that one marker, and every other line
  is unchanged. The line \<open>- Example Doc\<close> yields \<open>Example Doc\<close>.
\<close>

theorem stripBullets_both_markers:
  "stripBullets line =
     (if prefix ''- * '' line then drop 4 line
      else if prefix ''- '' line then drop 2 line
      else if prefix ''* '' line then drop 2 line
      else line)"
  by (auto simp: stripBullets_def TrimPrefix_def prefix_def)

theorem stripBullets_both_markers_witness:
  "stripBullets ''- Example Doc'' = ''Example Doc''
   \<and> stripBullets ''* - Example Doc'' = ''- Example Doc''
   \<and> stripBullets ''- * Example Doc'' = ''Example Doc''"
proof -
  have "stripBullets ''- Example Doc'' = ''Example Doc''"
    using stripBullets_both_markers [of "''- Example Doc''"] by simp
  moreover have "stripBullets ''* - Example Doc'' = ''- Example Doc''"
    using stripBullets_both_markers [of "''* - Example Doc''"] by simp
  moreover have "stripBullets ''- * Example Doc'' = ''Example Doc''"
    using stripBullets_both_markers [of "''- * Example Doc''"] by simp
  ultimately show ?thesis
    by (intro conjI)
qed

text \<open>
  The claim as it was stated, with at most one marker stripped and a \<open>"* "\<close> left in place
  behind a stripped \<open>"- "\<close>, fails on the line \<open>- * Foo\<close>: the candidate is \<open>Foo\<close>, not
  \<open>* Foo\<close>.
\<close>

theorem stripBullets_one_marker_counterexample:
  "prefix ''- '' ''- * Foo''
   \<and> stripBullets ''- * Foo'' \<noteq> drop 2 ''- * Foo''
   \<and> stripBullets ''- * Foo'' = ''Foo''
   \<and> FilterDocuments plainBytes (fixedResponse \<lparr>Choices = [''- * Foo''], Error = None\<rparr>)
        theFilter [quarterly] ''foo'' = Inr [''Foo'']"
proof -
  have "prefix ''- '' ''- * Foo''"
    by simp
  moreover have s: "stripBullets ''- * Foo'' = ''Foo''"
    by (simp add: stripBullets_def TrimPrefix_def)
  moreover have "stripBullets ''- * Foo'' \<noteq> drop 2 ''- * Foo''"
    by (simp add: s)
  moreover have "FilterDocuments plainBytes
        (fixedResponse \<lparr>Choices = [''- * Foo''], Error = None\<rparr>)
        theFilter [quarterly] ''foo'' = Inr [''Foo'']"
    by code_simp
  ultimately show ?thesis
    by (intro conjI)
qed


section \<open>Properties of the answer handling\<close>

text \<open>
  C5 (as amended). When the decoded response carries no error object and the content of
  its first completion, trimmed, is \<open>NONE\<close> or empty, \<open>FilterDocuments\<close> returns the empty
  list of candidates and no error. When the decoded response carries an error object,
  \<open>FilterDocuments\<close> fails with the API error of that object's message, whatever the
  completions hold.
\<close>

theorem FilterDocuments_NONE:
  assumes "endpoint (apiKey filter') (buildRequest documents query) = Unmarshalled response"
  shows "(Error response = None \<and> Choices response = first # others
            \<and> (TrimSpace U first = ''NONE'' \<or> TrimSpace U first = [])
          \<longrightarrow> FilterDocuments U endpoint filter' documents query = Inr [])
       \<and> (Error response = Some message
          \<longrightarrow> FilterDocuments U endpoint filter' documents query = Inl (APIError message))"
proof (intro conjI impI)
  assume "Error response = None \<and> Choices response = first # others
            \<and> (TrimSpace U first = ''NONE'' \<or> TrimSpace U first = [])"
  with assms show "FilterDocuments U endpoint filter' documents query = Inr []"
    by (auto simp: FilterDocuments_def)
next
  assume "Error response = Some message"
  with assms show "FilterDocuments U endpoint filter' documents query = Inl (APIError message)"
    by (simp add: FilterDocuments_def)
qed

theorem FilterDocuments_NONE_witness:
  "fixedResponse \<lparr>Choices = [''  NONE '' @ [CHR 0x0A], ''Beta''], Error = None\<rparr>
       (apiKey theFilter) (buildRequest [quarterly, beta] ''reports'')
     = Unmarshalled \<lparr>Choices = [''  NONE '' @ [CHR 0x0A], ''Beta''], Error = None\<rparr>
   \<and> TrimSpace plainBytes (''  NONE '' @ [CHR 0x0A]) = ''NONE''
   \<and> FilterDocuments plainBytes
        (fixedResponse \<lparr>Choices = [''  NONE '' @ [CHR 0x0A], ''Beta''], Error = None\<rparr>)
        theFilter [quarterly, beta] ''reports'' = Inr []
   \<and> fixedResponse \<lparr>Choices = [''Beta''], Error = Some ''quota exceeded''\<rparr>
       (apiKey theFilter) (buildRequest [quarterly, beta] ''reports'')
     = Unmarshalled \<lparr>Choices = [''Beta''], Error = Some ''quota exceeded''\<rparr>
   \<and> FilterDocuments plainBytes
        (fixedResponse \<lparr>Choices = [''Beta''], Error = Some ''quota exceeded''\<rparr>)
        theFilter [quarterly, beta] ''reports'' = Inl (APIError ''quota exceeded'')"
proof -
  let ?r = "\<lparr>Choices = [''  NONE '' @ [CHR 0x0A], ''Beta''], Error = None\<rparr>"
  let ?e = "\<lparr>Choices = [''Beta''], Error = Some ''quota exceeded''\<rparr>"
  have a: "fixedResponse ?r (apiKey theFilter) (buildRequest [quarterly, beta] ''reports'')
      = Unmarshalled ?r"
    by (simp add: fixedResponse_def)
  have b: "Error ?r = None" and c: "Choices ?r = (''  NONE '' @ [CHR 0x0A]) # [''Beta'']"
    by simp_all
  have d: "TrimSpace plainBytes (''  NONE '' @ [CHR 0x0A]) = ''NONE''"
    by code_simp
  then have d': "TrimSpace plainBytes (''  NONE '' @ [CHR 0x0A]) = ''NONE''
      \<or> TrimSpace plainBytes (''  NONE '' @ [CHR 0x0A]) = []"
    by (rule disjI1)
  note t = FilterDocuments_NONE
    [where endpoint = "fixedResponse ?r" and filter' = theFilter
       and documents = "[quarterly, beta]" and query = "''reports''"
       and first = "''  NONE '' @ [CHR 0x0A]" and others = "[''Beta'']"
       and U = plainBytes, OF a]
  from t b c d' have n: "FilterDocuments plainBytes (fixedResponse ?r) theFilter
      [quarterly, beta] ''reports'' = Inr []"
    by blast
  have a': "fixedResponse ?e (apiKey theFilter) (buildRequest [quarterly, beta] ''reports'')
      = Unmarshalled ?e"
    by (simp add: fixedResponse_def)
  have b': "Error ?e = Some ''quota exceeded''"
    by simp
  note t' = FilterDocuments_NONE
    [where endpoint = "fixedResponse ?e" and filter' = theFilter
       and documents = "[quarterly, beta]" and query = "''reports''"
       and message = "''quota exceeded''" and U = plainBytes, OF a']
  from t' b' have e: "FilterDocuments plainBytes (fixedResponse ?e) theFilter
      [quarterly, beta] ''reports'' = Inl (APIError ''quota exceeded'')"
    by blast
  from a d n a' e show ?thesis
    by (intro conjI)
qed

text \<open>
  The claim as it was stated, for every response whose first completion is \<open>NONE\<close>, fails
  on a response that also carries an error object: the error object is looked at first and
  the call fails with the API error.
\<close>

theorem FilterDocuments_NONE_counterexample:
  "TrimSpace plainBytes ''NONE'' = ''NONE''
   \<and> FilterDocuments plainBytes
        (fixedResponse \<lparr>Choices = [''NONE''], Error = Some ''rate limit''\<rparr>)
        theFilter [quarterly] ''reports'' = Inl (APIError ''rate limit'')
   \<and> FilterDocuments plainBytes
        (fixedResponse \<lparr>Choices = [''NONE''], Error = Some ''rate limit''\<rparr>)
        theFilter [quarterly] ''reports'' \<noteq> Inr []"
proof -
  have "TrimSpace plainBytes ''NONE'' = ''NONE''"
    by code_simp
  moreover have f: "FilterDocuments plainBytes
        (fixedResponse \<lparr>Choices = [''NONE''], Error = Some ''rate limit''\<rparr>)
        theFilter [quarterly] ''reports'' = Inl (APIError ''rate limit'')"
    by (simp add: FilterDocuments_def fixedResponse_def)
  moreover have "FilterDocuments plainBytes
        (fixedResponse \<lparr>Choices = [''NONE''], Error = Some ''rate limit''\<rparr>)
        theFilter [quarterly] ''reports'' \<noteq> Inr []"
    by (simp add: f)
  ultimately show ?thesis
    by (intro conjI)
qed

text \<open>
  C6 (as amended). When the decoded response has no completions, \<open>FilterDocuments\<close> fails
  and never returns an empty result: with the error \<open>NoResponseFromAIModel\<close>, which no
  other failure produces, when the response carries no error object, and with the API
  error when it carries one.
\<close>

theorem FilterDocuments_no_choices:
  assumes "endpoint (apiKey filter') (buildRequest documents query) = Unmarshalled response"
    and "Choices response = []"
  shows "FilterDocuments U endpoint filter' documents query =
           (case Error response of None \<Rightarrow> Inl NoResponseFromAIModel
            | Some message \<Rightarrow> Inl (APIError message))"
  using assms by (simp add: FilterDocuments_def split: option.splits)

theorem FilterDocuments_no_choices_witness:
  "fixedResponse \<lparr>Choices = [], Error = None\<rparr>
       (apiKey theFilter) (buildRequest [quarterly] ''reports'')
     = Unmarshalled \<lparr>Choices = [], Error = None\<rparr>
   \<and> FilterDocuments plainBytes (fixedResponse \<lparr>Choices = [], Error = None\<rparr>)
        theFilter [quarterly] ''reports'' = Inl NoResponseFromAIModel"
proof -
  let ?r = "\<lparr>Choices = [], Error = None\<rparr> :: TogetherResponse"
  have a: "fixedResponse ?r (apiKey theFilter) (buildRequest [quarterly] ''reports'')
      = Unmarshalled ?r"
    by (simp add: fixedResponse_def)
  have b: "Choices ?r = []"
    by simp
  from FilterDocuments_no_choices
    [where endpoint = "fixedResponse ?r" and filter' = theFilter
       and documents = "[quarterly]" and query = "''reports''" and U = plainBytes, OF a b]
  have "FilterDocuments plainBytes (fixedResponse ?r) theFilter [quarterly] ''reports''
      = Inl NoResponseFromAIModel"
    by simp
  with a show ?thesis
    by (intro conjI)
qed

text \<open>
  The claim as it was stated, the no-response error for every decoded body without
  completions, fails on a body that carries an error object and no completions: the call
  fails with the API error, not with \<open>NoResponseFromAIModel\<close>.
\<close>

theorem FilterDocuments_no_choices_counterexample:
  "Choices \<lparr>Choices = [], Error = Some ''rate limit''\<rparr> = []
   \<and> FilterDocuments plainBytes (fixedResponse \<lparr>Choices = [], Error = Some ''rate limit''\<rparr>)
        theFilter [quarterly] ''reports'' = Inl (APIError ''rate limit'')
   \<and> FilterDocuments plainBytes (fixedResponse \<lparr>Choices = [], Error = Some ''rate limit''\<rparr>)
        theFilter [quarterly] ''reports'' \<noteq> Inl NoResponseFromAIModel"
proof -
  have f: "FilterDocuments plainBytes
        (fixedResponse \<lparr>Choices = [], Error = Some ''rate limit''\<rparr>)
        theFilter [quarterly] ''reports'' = Inl (APIError ''rate limit'')"
    by (simp add: FilterDocuments_def fixedResponse_def)
  moreover have "FilterDocuments plainBytes
        (fixedResponse \<lparr>Choices = [], Error = Some ''rate limit''\<rparr>)
        theFilter [quarterly] ''reports'' \<noteq> Inl NoResponseFromAIModel"
    by (simp add: f)
  moreover have "Choices \<lparr>Choices = [], Error = Some ''rate limit''\<rparr> = []"
    by simp
  ultimately show ?thesis
    by (intro conjI)
qed

end
